theory Spec2Isabelle
  imports Main "HOL-Library.Code_Target_Numeral"
begin

section \<open>JavaScript values as the server sees them\<close>

text \<open>
  \<^verbatim>\<open>src/server.js\<close> reads a decoded JSON body by property access, tests it with
  \<^verbatim>\<open>!\<close>, \<^verbatim>\<open>||\<close>, \<^verbatim>\<open>&&\<close>, \<^verbatim>\<open>===\<close> and \<^verbatim>\<open>Array.isArray\<close>, and feeds
  fields to \<^verbatim>\<open>parseInt\<close> and to a template literal. The embedding therefore works on
  dynamically typed values.

  Numbers: \<open>Fin n\<close> is the Number with the integer value \<open>n\<close>, \<open>PosInf\<close> and
  \<open>NegInf\<close> are the two infinities and \<open>NaN\<close> is not-a-number. Fractions are not
  represented, and the negative zero is not told from zero. Not every integer is a
  Number: \<open>number_value\<close> below rounds one to the nearest Number, as the language does
  wherever it makes a Number. Strings are lists of 8-bit characters, read as the code units
  \<open>0x00\<close> to \<open>0xFF\<close>. An object is the list of its own properties, as
  \<^verbatim>\<open>JSON.parse\<close> builds it (each key once).
\<close>

datatype jsnum = NaN | Fin int | PosInf | NegInf

datatype jsval =
    JUndefined
  | JNull
  | JBool bool
  | JNum jsnum
  | JStr string
  | JArr "jsval list"
  | JObj "(string \<times> jsval) list"

text \<open>
  What a \<^verbatim>\<open>throw\<close> carries: a \<^verbatim>\<open>TypeError\<close> of the language (a property read on
  \<^verbatim>\<open>null\<close> or \<^verbatim>\<open>undefined\<close>, a call of something that is no function, an object
  with no primitive value), or the rejection of \<^verbatim>\<open>axios.get\<close> with its message.
\<close>

datatype error = TypeError | RequestFailed string

definition and_then :: "error + 'a \<Rightarrow> ('a \<Rightarrow> error + 'b) \<Rightarrow> error + 'b" where
  "and_then r f = (case r of Inl e \<Rightarrow> Inl e | Inr x \<Rightarrow> f x)"

text \<open>\<^verbatim>\<open>ToBoolean\<close>: the test behind \<^verbatim>\<open>!x\<close>, \<^verbatim>\<open>x || y\<close> and \<^verbatim>\<open>x && y\<close>.\<close>

fun to_boolean :: "jsval \<Rightarrow> bool" where
  "to_boolean JUndefined = False"
| "to_boolean JNull = False"
| "to_boolean (JBool b) = b"
| "to_boolean (JNum NaN) = False"
| "to_boolean (JNum (Fin n)) = (n \<noteq> 0)"
| "to_boolean (JNum PosInf) = True"
| "to_boolean (JNum NegInf) = True"
| "to_boolean (JStr s) = (s \<noteq> [])"
| "to_boolean (JArr xs) = True"
| "to_boolean (JObj kvs) = True"

text \<open>\<^verbatim>\<open>a || b\<close> on values: the left operand when it is truthy, else the right one.\<close>

definition js_or :: "jsval \<Rightarrow> jsval \<Rightarrow> jsval" where
  "js_or a b = (if to_boolean a then a else b)"

text \<open>
  \<^verbatim>\<open>a === b\<close>. The server compares with a primitive literal only (\<^verbatim>\<open>"~"\<close>,
  \<^verbatim>\<open>0\<close>, \<^verbatim>\<open>"radio"\<close>, \<^verbatim>\<open>"podcast"\<close>), so an array or an object, which is equal
  to itself alone, is never equal here.
\<close>

fun strict_eq :: "jsval \<Rightarrow> jsval \<Rightarrow> bool" where
  "strict_eq JUndefined JUndefined = True"
| "strict_eq JNull JNull = True"
| "strict_eq (JBool a) (JBool b) = (a = b)"
| "strict_eq (JNum (Fin a)) (JNum (Fin b)) = (a = b)"
| "strict_eq (JNum PosInf) (JNum PosInf) = True"
| "strict_eq (JNum NegInf) (JNum NegInf) = True"
| "strict_eq (JStr a) (JStr b) = (a = b)"
| "strict_eq _ _ = False"

text \<open>
  A property read \<^verbatim>\<open>v.k\<close>. It throws on \<^verbatim>\<open>null\<close> and \<^verbatim>\<open>undefined\<close>; on an
  object it gives the own property or \<^verbatim>\<open>undefined\<close>; on any other value it gives
  \<^verbatim>\<open>undefined\<close>, since none of the names the server reads (\<^verbatim>\<open>data\<close>, \<^verbatim>\<open>type\<close>,
  \<^verbatim>\<open>ErrorCode\<close>, \<^verbatim>\<open>st_id\<close>, ...) is a property of a string, a number, a boolean or
  an array, nor of \<^verbatim>\<open>Object.prototype\<close>.
\<close>

fun get :: "jsval \<Rightarrow> string \<Rightarrow> error + jsval" where
  "get JUndefined k = Inl TypeError"
| "get JNull k = Inl TypeError"
| "get (JObj kvs) k = Inr (case map_of kvs k of None \<Rightarrow> JUndefined | Some v \<Rightarrow> v)"
| "get v k = Inr JUndefined"

text \<open>The same read where it cannot throw any more (a later read of the same value).\<close>

definition field :: "jsval \<Rightarrow> string \<Rightarrow> jsval" where
  "field v k = (case get v k of Inl e \<Rightarrow> JUndefined | Inr x \<Rightarrow> x)"

definition nullish :: "jsval \<Rightarrow> bool" where
  "nullish v = (v = JUndefined \<or> v = JNull)"

subsection \<open>Numbers: rounding to a double and printing\<close>

text \<open>
  A Number is an IEEE 754 double. The Number value of an integer is the nearest double,
  ties to the even significand: integers up to \<open>2 ^ 53\<close> in magnitude are Numbers
  themselves; a larger one keeps its 53 leading bits, rounded; from \<open>2 ^ 1024\<close> on the
  result is an infinity. \<open>bitlen\<close> counts the bits of a natural number and
  \<open>nearest\<close> rounds a magnitude.
\<close>

fun bitlen :: "nat \<Rightarrow> nat" where
  "bitlen n = (if n = 0 then 0 else Suc (bitlen (n div 2)))"

definition nearest :: "nat \<Rightarrow> nat" where
  "nearest a =
     (if a \<le> 2 ^ 53 then a
      else
        let shift = bitlen a - 53;
            q = a div 2 ^ shift;
            r = a mod 2 ^ shift;
            half = 2 ^ (shift - 1)
        in (if half < r \<or> (r = half \<and> odd q) then q + 1 else q) * 2 ^ shift)"

definition number_value :: "int \<Rightarrow> jsnum" where
  "number_value v =
     (let a = nearest (nat \<bar>v\<bar>)
      in if 2 ^ 1024 \<le> a then (if v < 0 then NegInf else PosInf)
         else Fin (if v < 0 then - int a else int a))"

text \<open>
  \<^verbatim>\<open>Number::toString\<close> on an integer-valued Number \<open>x\<close>: the decimal with the
  fewest significant digits whose Number value is \<open>x\<close>, the one closest to \<open>x\<close>
  where several have as few. \<open>pick x p\<close> looks among the multiples of \<open>p\<close> (the two
  around \<open>x\<close>); \<open>shortest x j\<close> tries the powers of ten from \<open>10 ^ j\<close> down. Up
  to 21 digits print in full, longer values in the exponent form.
\<close>

definition digit_char :: "nat \<Rightarrow> char" where
  "digit_char d = char_of (48 + d)"

fun string_of_nat :: "nat \<Rightarrow> string" where
  "string_of_nat n =
     (if n < 10 then [digit_char n] else string_of_nat (n div 10) @ [digit_char (n mod 10)])"

definition pick :: "nat \<Rightarrow> nat \<Rightarrow> nat option" where
  "pick x p =
     (let a = (x div p) * p; b = a + p
      in if nearest a = x \<and> nearest b = x then Some (if x - a \<le> b - x then a else b)
         else if nearest a = x then Some a
         else if nearest b = x then Some b
         else None)"

fun shortest :: "nat \<Rightarrow> nat \<Rightarrow> nat" where
  "shortest x 0 = x"
| "shortest x (Suc j) = (case pick x (10 ^ Suc j) of Some v \<Rightarrow> v | None \<Rightarrow> shortest x j)"

definition print_digits :: "nat \<Rightarrow> string" where
  "print_digits v =
     (let ds = string_of_nat v; n = length ds
      in if n \<le> 21 then ds
         else
           let sig = rev (dropWhile (\<lambda>c. c = CHR ''0'') (rev ds))
           in (if length sig = 1 then sig else hd sig # CHR ''.'' # tl sig)
              @ ''e+'' @ string_of_nat (n - 1))"

definition magnitude_string :: "nat \<Rightarrow> string" where
  "magnitude_string x =
     (if x \<le> 2 ^ 53 then string_of_nat x
      else print_digits (shortest x (length (string_of_nat x))))"

text \<open>
  The string of a Number. \<open>Fin n\<close> is read as the Number value of \<open>n\<close>, which is
  \<open>n\<close> itself for every integer that is a Number.
\<close>

definition number_string :: "jsnum \<Rightarrow> string" where
  "number_string x =
     (case x of
        NaN \<Rightarrow> ''NaN''
      | PosInf \<Rightarrow> ''Infinity''
      | NegInf \<Rightarrow> ''-Infinity''
      | Fin n \<Rightarrow>
          (case number_value n of
             Fin m \<Rightarrow> if m < 0 then CHR ''-'' # magnitude_string (nat (- m))
                      else magnitude_string (nat m)
           | PosInf \<Rightarrow> ''Infinity''
           | NegInf \<Rightarrow> ''-Infinity''
           | NaN \<Rightarrow> ''NaN''))"

subsection \<open>Strings: trimming, digits, conversion\<close>

text \<open>
  The white space and line terminators that \<^verbatim>\<open>String.prototype.trim\<close> and
  \<^verbatim>\<open>parseInt\<close> strip, among the code units up to \<open>0xFF\<close>: TAB, LF, VT, FF, CR, SP
  and NBSP.
\<close>

definition is_white :: "char \<Rightarrow> bool" where
  "is_white c = (c \<in> set [CHR 0x09, CHR 0x0A, CHR 0x0B, CHR 0x0C, CHR 0x0D, CHR 0x20, CHR 0xA0])"

definition trim :: "string \<Rightarrow> string" where
  "trim s = rev (dropWhile is_white (rev (dropWhile is_white s)))"

definition is_digit :: "char \<Rightarrow> bool" where
  "is_digit c = (c \<in> set ''0123456789'')"

definition digit_value :: "char \<Rightarrow> int" where
  "digit_value c = int (of_char c) - 48"

text \<open>
  \<^verbatim>\<open>ToString\<close>, as the template literal and \<^verbatim>\<open>parseInt\<close> apply it. An array joins
  its elements with commas, \<^verbatim>\<open>null\<close> and \<^verbatim>\<open>undefined\<close> elements as the empty
  string. A parsed object prints as \<^verbatim>\<open>[object Object]\<close> through
  \<^verbatim>\<open>Object.prototype.toString\<close>, unless it has an own property \<^verbatim>\<open>toString\<close>:
  that value is not callable, \<^verbatim>\<open>valueOf\<close> gives no primitive either, and the
  conversion throws a \<^verbatim>\<open>TypeError\<close>.
\<close>

fun to_string :: "jsval \<Rightarrow> error + string"
  and join_elems :: "jsval list \<Rightarrow> error + string" where
  "to_string JUndefined = Inr ''undefined''"
| "to_string JNull = Inr ''null''"
| "to_string (JBool b) = Inr (if b then ''true'' else ''false'')"
| "to_string (JNum x) = Inr (number_string x)"
| "to_string (JStr s) = Inr s"
| "to_string (JArr xs) = join_elems xs"
| "to_string (JObj kvs) =
     (if ''toString'' \<in> set (map fst kvs) then Inl TypeError else Inr ''[object Object]'')"
| "join_elems [] = Inr ''''"
| "join_elems (x # xs) =
     and_then (if nullish x then Inr '''' else to_string x) (\<lambda>s.
       if xs = [] then Inr s
       else and_then (join_elems xs) (\<lambda>rest. Inr (s @ '','' @ rest)))"

text \<open>
  \<^verbatim>\<open>parseInt(v, 10)\<close>: convert to a string, skip leading white space, read one sign,
  take the longest run of decimal digits; no digit gives \<^verbatim>\<open>NaN\<close>, otherwise the
  Number value of the digits' value with the sign (a double: exact up to \<open>2 ^ 53\<close>,
  rounded beyond, as Node's engine rounds it). The value is accumulated digit by digit
  from the left.
\<close>

definition digits_value :: "string \<Rightarrow> int" where
  "digits_value z = foldl (\<lambda>acc c. 10 * acc + digit_value c) 0 z"

definition parse_decimal :: "string \<Rightarrow> jsnum" where
  "parse_decimal input =
     (let s = dropWhile is_white input;
          sign = (if s \<noteq> [] \<and> hd s = CHR ''-'' then - 1 else 1);
          s' = (if s \<noteq> [] \<and> (hd s = CHR ''+'' \<or> hd s = CHR ''-'') then tl s else s);
          z = takeWhile is_digit s'
      in if z = [] then NaN else number_value (sign * digits_value z))"

definition parseInt :: "jsval \<Rightarrow> error + jsnum" where
  "parseInt v = and_then (to_string v) (\<lambda>input. Inr (parse_decimal input))"

section \<open>The item mappers\<close>

text \<open>
  \<^verbatim>\<open>parseInt(x || "0", 10)\<close>, the expression of the three counters
  (\<^verbatim>\<open>st_play_cnt\<close>, \<^verbatim>\<open>st_fav_cnt\<close>, \<^verbatim>\<open>total_stream\<close>).
\<close>

definition counter :: "jsval \<Rightarrow> error + jsnum" where
  "counter raw = parseInt (js_or raw (JStr ''0''))"

definition LISTEN_BASE :: string where
  "LISTEN_BASE = ''https://appradiofm.com/radioplay/''"

text \<open>
  \<^verbatim>\<open>mapRadioStation(station)\<close>. The first read, \<^verbatim>\<open>station.st_id\<close>, throws on
  \<^verbatim>\<open>null\<close> and \<^verbatim>\<open>undefined\<close>; after it every read of \<^verbatim>\<open>station\<close> succeeds.
  The two counters and the template literal convert a field to a string and may throw
  there. The result is the object literal, its properties in the source's order.
\<close>

definition mapRadioStation :: "jsval \<Rightarrow> error + jsval" where
  "mapRadioStation station =
     and_then (get station ''st_id'') (\<lambda>st_id.
     and_then (counter (field station ''st_play_cnt'')) (\<lambda>playCount.
     and_then (counter (field station ''st_fav_cnt'')) (\<lambda>favoriteCount.
     and_then (to_string (field station ''st_shorturl'')) (\<lambda>short.
       Inr (JObj
         [(''id'', st_id),
          (''name'', field station ''st_name''),
          (''logo'', field station ''st_logo''),
          (''website'', field station ''st_weburl''),
          (''shortUrl'', field station ''st_shorturl''),
          (''genre'', field station ''st_genre''),
          (''languageCode'', field station ''st_lang''),
          (''language'', field station ''language''),
          (''frequency'',
             if strict_eq (field station ''st_bc_freq'') (JStr ''~'') then JNull
             else field station ''st_bc_freq''),
          (''city'', field station ''st_city''),
          (''state'', field station ''st_state''),
          (''countryName'', field station ''country_name_rs''),
          (''countryCode'', field station ''st_country''),
          (''playCount'', JNum playCount),
          (''favoriteCount'', JNum favoriteCount),
          (''streamUrl'', field station ''stream_link''),
          (''streamType'', field station ''stream_type''),
          (''streamBitrate'', field station ''stream_bitrate''),
          (''deeplink'', field station ''deeplink''),
          (''listenUrl'', JStr (LISTEN_BASE @ short))])))))"

text \<open>\<^verbatim>\<open>mapPodcast(podcast)\<close>, in the same way.\<close>

definition mapPodcast :: "jsval \<Rightarrow> error + jsval" where
  "mapPodcast podcast =
     and_then (get podcast ''p_id'') (\<lambda>p_id.
     and_then (counter (field podcast ''total_stream'')) (\<lambda>totalStream.
       Inr (JObj
         [(''id'', p_id),
          (''name'', field podcast ''p_name''),
          (''description'', field podcast ''p_desc''),
          (''language'', field podcast ''p_lang''),
          (''image'', field podcast ''p_image''),
          (''email'', field podcast ''p_email''),
          (''category'', field podcast ''cat_name''),
          (''totalStream'', JNum totalStream),
          (''deeplink'', field podcast ''deeplink''),
          (''countryCode'', field podcast ''cc_code'')])))"

section \<open>The search route\<close>

text \<open>
  \<^verbatim>\<open>Array.prototype.find\<close> and \<^verbatim>\<open>Array.prototype.map\<close> with a callback that may
  throw: the first throw ends the scan. \<^verbatim>\<open>find\<close> gives \<^verbatim>\<open>undefined\<close> when no
  element passes.
\<close>

fun find_first :: "(jsval \<Rightarrow> error + bool) \<Rightarrow> jsval list \<Rightarrow> error + jsval" where
  "find_first p [] = Inr JUndefined"
| "find_first p (b # bs) =
     and_then (p b) (\<lambda>hit. if hit then Inr b else find_first p bs)"

fun map_all :: "(jsval \<Rightarrow> error + jsval) \<Rightarrow> jsval list \<Rightarrow> error + jsval list" where
  "map_all f [] = Inr []"
| "map_all f (x # xs) =
     and_then (f x) (\<lambda>y. and_then (map_all f xs) (\<lambda>ys. Inr (y # ys)))"

text \<open>
  \<^verbatim>\<open>buckets.find((b) => b.type === label)\<close>. \<^verbatim>\<open>buckets\<close> is
  \<^verbatim>\<open>apiData.data.Data || []\<close>, so it is truthy; when it is no array it has no
  callable \<^verbatim>\<open>find\<close> and the call throws.
\<close>

definition find_bucket :: "string \<Rightarrow> jsval \<Rightarrow> error + jsval" where
  "find_bucket label buckets =
     (case buckets of
        JArr bs \<Rightarrow>
          find_first (\<lambda>b. and_then (get b ''type'') (\<lambda>t. Inr (strict_eq t (JStr label)))) bs
      | _ \<Rightarrow> Inl TypeError)"

text \<open>
  \<^verbatim>\<open>bucket && Array.isArray(bucket.data) ? bucket.data.map(mapper) : []\<close>.
\<close>

definition collect :: "(jsval \<Rightarrow> error + jsval) \<Rightarrow> jsval \<Rightarrow> error + jsval list" where
  "collect mapper bucket =
     (if to_boolean bucket then
        and_then (get bucket ''data'') (\<lambda>items.
          case items of JArr xs \<Rightarrow> map_all mapper xs | _ \<Rightarrow> Inr [])
      else Inr [])"

record response =
  status :: nat
  body :: jsval

definition error_body :: "jsval \<Rightarrow> jsval" where
  "error_body msg = JObj [(''error'', msg)]"

text \<open>
  The body of the \<^verbatim>\<open>try\<close> block after \<^verbatim>\<open>await axios.get(...)\<close>, on
  \<^verbatim>\<open>apiData = response.data\<close>: the value is the response sent, or the exception
  thrown.
\<close>

definition on_response :: "string \<Rightarrow> jsval \<Rightarrow> error + response" where
  "on_response query apiData =
     (if \<not> to_boolean apiData then
        Inr \<lparr>status = 502, body = error_body (JStr ''Unexpected response from RadioFM API'')\<rparr>
      else
        and_then (get apiData ''data'') (\<lambda>payload.
        if \<not> to_boolean payload then
          Inr \<lparr>status = 502, body = error_body (JStr ''Unexpected response from RadioFM API'')\<rparr>
        else
          and_then (get payload ''ErrorCode'') (\<lambda>code.
          if \<not> strict_eq code (JNum (Fin 0)) then
            and_then (get payload ''ErrorMessage'') (\<lambda>msg.
              Inr \<lparr>status = 502, body = error_body (js_or msg (JStr ''RadioFM API error''))\<rparr>)
          else
            and_then (get payload ''Data'') (\<lambda>raw.
            let buckets = js_or raw (JArr []) in
            and_then (find_bucket ''radio'' buckets) (\<lambda>radioBucket.
            and_then (find_bucket ''podcast'' buckets) (\<lambda>podcastBucket.
            and_then (collect mapRadioStation radioBucket) (\<lambda>stations.
            and_then (collect mapPodcast podcastBucket) (\<lambda>podcasts.
              Inr \<lparr>status = 200,
                   body = JObj
                     [(''query'', JStr query),
                      (''totalStations'', JNum (Fin (int (length stations)))),
                      (''totalPodcasts'', JNum (Fin (int (length podcasts)))),
                      (''stations'', JArr stations),
                      (''podcasts'', JArr podcasts)]\<rparr>))))))))"

text \<open>
  Upstreams for concrete runs: one that answers every request with the same decoded
  body, and one whose every request is rejected.
\<close>

definition answers :: "jsval \<Rightarrow> string \<Rightarrow> error + jsval" where
  "answers v srch = Inr v"

definition rejects :: "string \<Rightarrow> string \<Rightarrow> error + jsval" where
  "rejects msg srch = Inl (RequestFailed msg)"

text \<open>
  One run of the \<^verbatim>\<open>/search\<close> handler: the response it sends, the \<^verbatim>\<open>srch\<close>
  parameters of the \<^verbatim>\<open>axios.get\<close> calls it made, in order, and what it logged with
  \<^verbatim>\<open>console.error\<close>.
\<close>

record outcome =
  reply :: response
  calls :: "string list"
  logged :: "error list"

text \<open>
  The handler. \<^verbatim>\<open>query_of\<close> is \<^verbatim>\<open>(req.query.query || "").trim()\<close>, where
  \<^verbatim>\<open>req.query.query\<close> is absent or a string (a repeated or nested
  parameter, which Express delivers as an array or an object, is not covered). The
  upstream is a function from the \<^verbatim>\<open>srch\<close> parameter to what \<^verbatim>\<open>axios.get\<close>
  settles with: the decoded body \<^verbatim>\<open>response.data\<close>, or a rejection (network failure,
  timeout after 15000 ms, a status outside 2xx). The \<^verbatim>\<open>catch\<close> clause takes every
  exception of the \<^verbatim>\<open>try\<close> block.
\<close>

definition query_of :: "string option \<Rightarrow> string" where
  "query_of param = trim (case param of None \<Rightarrow> '''' | Some s \<Rightarrow> s)"

definition search :: "(string \<Rightarrow> error + jsval) \<Rightarrow> string option \<Rightarrow> outcome" where
  "search upstream param =
     (let query = query_of param in
      if query = [] then
        \<lparr>reply = \<lparr>status = 400,
                   body = error_body (JStr ''Missing required query parameter: query'')\<rparr>,
         calls = [], logged = []\<rparr>
      else
        (case and_then (upstream query) (on_response query) of
           Inr r \<Rightarrow> \<lparr>reply = r, calls = [query], logged = []\<rparr>
         | Inl err \<Rightarrow>
             \<lparr>reply = \<lparr>status = 500,
                       body = error_body (JStr ''Internal server error while searching RadioFM'')\<rparr>,
              calls = [query], logged = [err]\<rparr>))"

section \<open>What the specification says, as definitions\<close>

text \<open>
  The base-10 value of a string of decimal digits, by place value: the last digit
  counts units, the one before it tens, and so on. \<open>weigh\<close> takes the digits units
  first. \<open>parseInt\<close> above accumulates from the left instead.
\<close>

fun weigh :: "string \<Rightarrow> int" where
  "weigh [] = 0"
| "weigh (c # cs) = digit_value c + 10 * weigh cs"

definition decimal_value :: "string \<Rightarrow> int" where
  "decimal_value s = weigh (rev s)"

definition all_digits :: "string \<Rightarrow> bool" where
  "all_digits s = (s \<noteq> [] \<and> list_all is_digit s)"

text \<open>
  A numeric string is one or more decimal digits, with one sign before them or none;
  its integer value is the digits' value, negated after a minus sign.
\<close>

definition numeric :: "string \<Rightarrow> bool" where
  "numeric s =
     (case s of
        [] \<Rightarrow> False
      | c # cs \<Rightarrow> if c = CHR ''-'' \<or> c = CHR ''+'' then all_digits cs else all_digits s)"

definition integer_value :: "string \<Rightarrow> int" where
  "integer_value s =
     (case s of
        [] \<Rightarrow> 0
      | c # cs \<Rightarrow>
          if c = CHR ''-'' then - decimal_value cs
          else if c = CHR ''+'' then decimal_value cs
          else decimal_value s)"

text \<open>
  How any string is read: as white space, then one sign or none, then a run of decimal
  digits, then a rest that starts with no digit. When there is neither a sign nor a
  digit, the rest starts with no white space and no sign either, so that the four parts
  of a string are determined.
\<close>

definition splits_as :: "string \<Rightarrow> string \<Rightarrow> string \<Rightarrow> string \<Rightarrow> string \<Rightarrow> bool" where
  "splits_as s ws sg ds rest =
     (s = ws @ sg @ ds @ rest \<and> list_all is_white ws \<and>
      (sg = [] \<or> sg = ''+'' \<or> sg = ''-'') \<and>
      list_all is_digit ds \<and>
      (rest = [] \<or> \<not> is_digit (hd rest)) \<and>
      (sg = [] \<and> ds = [] \<and> rest \<noteq> [] \<longrightarrow>
         \<not> is_white (hd rest) \<and> hd rest \<noteq> CHR ''+'' \<and> hd rest \<noteq> CHR ''-''))"

text \<open>
  How a raw counter and its normalized value are related. The normalized value is a
  Number. It is \<open>0\<close> for a missing raw value (\<^verbatim>\<open>undefined\<close>, \<^verbatim>\<open>null\<close>) and
  for the empty string. It is the integer value of a raw numeric string, when that is at
  most \<open>2 ^ 53\<close> in magnitude (the integers that a Number holds exactly). It is
  \<open>NaN\<close> for a non-empty raw string whose first character is no digit, no sign and
  no white space. And for every non-empty raw string: \<open>NaN\<close> when its run of digits
  is empty, else the value of that run, at most \<open>2 ^ 53\<close>, with its sign.
\<close>

definition counter_normalized :: "jsval \<Rightarrow> jsval \<Rightarrow> bool" where
  "counter_normalized raw out =
     ((\<exists>n. out = JNum n) \<and>
      (raw = JUndefined \<or> raw = JNull \<or> raw = JStr '''' \<longrightarrow> out = JNum (Fin 0)) \<and>
      (\<forall>s. raw = JStr s \<and> numeric s \<and> \<bar>integer_value s\<bar> \<le> 2 ^ 53 \<longrightarrow>
           out = JNum (Fin (integer_value s))) \<and>
      (\<forall>s. raw = JStr s \<and> s \<noteq> [] \<and> \<not> is_digit (hd s) \<and> \<not> is_white (hd s) \<and>
           hd s \<noteq> CHR ''+'' \<and> hd s \<noteq> CHR ''-'' \<longrightarrow> out = JNum NaN) \<and>
      (\<forall>s ws sg ds rest. raw = JStr s \<and> s \<noteq> [] \<and> splits_as s ws sg ds rest \<longrightarrow>
           (ds = [] \<longrightarrow> out = JNum NaN) \<and>
           (ds \<noteq> [] \<and> decimal_value ds \<le> 2 ^ 53 \<longrightarrow>
              out = JNum (Fin (if sg = ''-'' then - decimal_value ds else decimal_value ds)))))"

text \<open>
  The bucket selection in the specification's words: the first bucket of the list whose
  label is the given one, and the item list of the selected bucket, empty when no bucket
  was selected or its \<^verbatim>\<open>data\<close> is no list.
\<close>

definition labeled :: "string \<Rightarrow> jsval \<Rightarrow> bool" where
  "labeled label b = (field b ''type'' = JStr label)"

definition items_of :: "jsval option \<Rightarrow> jsval list" where
  "items_of selected =
     (case selected of
        None \<Rightarrow> []
      | Some b \<Rightarrow> (case field b ''data'' of JArr xs \<Rightarrow> xs | _ \<Rightarrow> []))"

section \<open>Example data\<close>

text \<open>
  The end-to-end scenario of the specification: one radio item with
  \<^verbatim>\<open>st_id = 7\<close>, \<^verbatim>\<open>st_shorturl = "jazz7"\<close>, \<^verbatim>\<open>st_bc_freq = "~"\<close>, here with a play
  count as well, in a body with a radio bucket and no podcast bucket.
\<close>

definition jazz_item :: jsval where
  "jazz_item = JObj
     [(''st_id'', JNum (Fin 7)), (''st_shorturl'', JStr ''jazz7''),
      (''st_bc_freq'', JStr ''~''), (''st_play_cnt'', JStr ''42'')]"

definition jazz_station :: jsval where
  "jazz_station = JObj
     [(''id'', JNum (Fin 7)), (''name'', JUndefined), (''logo'', JUndefined),
      (''website'', JUndefined), (''shortUrl'', JStr ''jazz7''), (''genre'', JUndefined),
      (''languageCode'', JUndefined), (''language'', JUndefined), (''frequency'', JNull),
      (''city'', JUndefined), (''state'', JUndefined), (''countryName'', JUndefined),
      (''countryCode'', JUndefined), (''playCount'', JNum (Fin 42)),
      (''favoriteCount'', JNum (Fin 0)), (''streamUrl'', JUndefined),
      (''streamType'', JUndefined), (''streamBitrate'', JUndefined),
      (''deeplink'', JUndefined),
      (''listenUrl'', JStr ''https://appradiofm.com/radioplay/jazz7'')]"

definition jazz_body :: jsval where
  "jazz_body = JObj
     [(''data'', JObj
        [(''ErrorCode'', JNum (Fin 0)),
         (''Data'', JArr [JObj [(''type'', JStr ''radio''), (''data'', JArr [jazz_item])]])])]"



text \<open>
  A station whose play count has digits after white space and letters after the
  digits.
\<close>

definition padded_item :: jsval where
  "padded_item = JObj [(''st_id'', JNum (Fin 9)), (''st_play_cnt'', JStr '' 12abc'')]"

text \<open>A podcast item whose stream counter is not a number.\<close>

definition talk_item :: jsval where
  "talk_item = JObj [(''p_id'', JNum (Fin 3)), (''total_stream'', JStr ''n/a'')]"

definition talk_podcast :: jsval where
  "talk_podcast = JObj
     [(''id'', JNum (Fin 3)), (''name'', JUndefined), (''description'', JUndefined),
      (''language'', JUndefined), (''image'', JUndefined), (''email'', JUndefined),
      (''category'', JUndefined), (''totalStream'', JNum NaN), (''deeplink'', JUndefined),
      (''countryCode'', JUndefined)]"

section \<open>Facts about the embedding\<close>

subsection \<open>Values, comparisons and trimming\<close>

lemma and_then_Inr: "and_then (Inr x) f = f x"
  by (simp add: and_then_def)

lemma and_then_Inl: "and_then (Inl e) f = Inl e"
  by (simp add: and_then_def)

lemma truthy_not_nullish: "to_boolean v \<Longrightarrow> \<not> nullish v"
  by (auto simp: nullish_def)

lemma get_field: "\<not> nullish v \<Longrightarrow> get v k = Inr (field v k)"
  by (cases v) (simp_all add: field_def nullish_def)

lemma field_truthy: "to_boolean (field v k) \<Longrightarrow> to_boolean v"
  by (cases v) (simp_all add: field_def)

lemma strict_eq_zero: "strict_eq v (JNum (Fin 0)) = (v = JNum (Fin 0))"
proof (cases v)
  case (JNum n)
  then show ?thesis by (cases n) auto
qed simp_all

lemma strict_eq_str: "strict_eq v (JStr s) = (v = JStr s)"
  by (cases v) auto

lemma trim_empty_iff: "trim s = [] \<longleftrightarrow> list_all is_white s"
proof
  assume "list_all is_white s"
  then have "dropWhile is_white s = []"
    by (simp add: list_all_iff dropWhile_eq_Nil_conv)
  then show "trim s = []" by (simp add: trim_def del: dropWhile_eq_Nil_conv)
next
  assume e: "trim s = []"
  have "dropWhile is_white s = []"
  proof (rule ccontr)
    assume ne: "dropWhile is_white s \<noteq> []"
    then have "\<not> is_white (hd (dropWhile is_white s))" by (rule hd_dropWhile)
    moreover from ne have "hd (dropWhile is_white s) \<in> set (dropWhile is_white s)" by simp
    moreover from e have "\<forall>x\<in>set (dropWhile is_white s). is_white x"
      by (simp add: trim_def dropWhile_eq_Nil_conv)
    ultimately show False by blast
  qed
  then show "list_all is_white s" by (simp add: list_all_iff dropWhile_eq_Nil_conv)
qed

subsection \<open>The counters: \<open>parseInt\<close> against the place value\<close>

lemma number_value_exact:
  assumes "\<bar>v\<bar> \<le> 2 ^ 53"
  shows "number_value v = Fin v"
proof -
  from assms have le: "nat \<bar>v\<bar> \<le> 2 ^ 53" by (simp add: nat_le_iff)
  then have n: "nearest (nat \<bar>v\<bar>) = nat \<bar>v\<bar>" by (simp add: nearest_def)
  have "(2::nat) ^ 53 < 2 ^ 1024" by (rule power_strict_increasing) simp_all
  with le have "\<not> 2 ^ 1024 \<le> nat \<bar>v\<bar>" by linarith
  then show ?thesis unfolding number_value_def Let_def n by auto
qed

lemma digits_value_snoc: "digits_value (xs @ [x]) = 10 * digits_value xs + digit_value x"
  by (simp add: digits_value_def)

lemma digits_value_decimal: "digits_value s = decimal_value s"
  by (induction s rule: rev_induct)
     (simp_all add: digits_value_snoc decimal_value_def, simp add: digits_value_def)

lemma digit_value_nonneg: "is_digit c \<Longrightarrow> 0 \<le> digit_value c"
  by (auto simp: is_digit_def digit_value_def)

lemma weigh_nonneg: "list_all is_digit cs \<Longrightarrow> 0 \<le> weigh cs"
  by (induction cs) (auto simp: digit_value_nonneg)

lemma decimal_value_nonneg: "list_all is_digit ds \<Longrightarrow> 0 \<le> decimal_value ds"
  by (simp add: decimal_value_def weigh_nonneg list_all_iff)

lemma digit_not_white: "is_digit c \<Longrightarrow> \<not> is_white c"
  by (auto simp: is_digit_def is_white_def)

lemma digit_not_sign: "is_digit c \<Longrightarrow> c \<noteq> CHR ''+'' \<and> c \<noteq> CHR ''-''"
  by (auto simp: is_digit_def)

lemma dropWhile_stays: "u = [] \<or> \<not> P (hd u) \<Longrightarrow> dropWhile P u = u"
  by (cases u) auto

lemma takeWhile_run:
  assumes "list_all is_digit ds" and "rest = [] \<or> \<not> is_digit (hd rest)"
  shows "takeWhile is_digit (ds @ rest) = ds"
proof -
  from assms(2) have "takeWhile is_digit rest = []" by (cases rest) auto
  with assms(1) show ?thesis by (simp add: list_all_iff takeWhile_append2)
qed

text \<open>
  \<open>parseInt\<close> on a string split into its parts: the white space and the rest do not
  count, the run of digits is read in full.
\<close>

lemma parse_decimal_split:
  assumes "splits_as s ws sg ds rest"
  shows "parse_decimal s =
    (if ds = [] then NaN
     else number_value (if sg = ''-'' then - decimal_value ds else decimal_value ds))"
proof -
  from assms have s: "s = ws @ sg @ ds @ rest" and ws: "list_all is_white ws"
    and sg: "sg = [] \<or> sg = ''+'' \<or> sg = ''-''"
    and ds: "list_all is_digit ds"
    and rest: "rest = [] \<or> \<not> is_digit (hd rest)"
    and bare: "sg = [] \<and> ds = [] \<and> rest \<noteq> [] \<longrightarrow>
         \<not> is_white (hd rest) \<and> hd rest \<noteq> CHR ''+'' \<and> hd rest \<noteq> CHR ''-''"
    by (simp_all add: splits_as_def)
  have run: "takeWhile is_digit (ds @ rest) = ds" using ds rest by (rule takeWhile_run)
  have skip: "dropWhile is_white s = dropWhile is_white (sg @ ds @ rest)"
    unfolding s using ws by (simp add: list_all_iff dropWhile_append2)
  from sg show ?thesis
  proof (elim disjE)
    assume e: "sg = []"
    show ?thesis
    proof (cases ds)
      case (Cons d ds')
      with ds have d: "is_digit d" by simp
      have "dropWhile is_white s = ds @ rest"
        unfolding skip e using Cons d by (simp add: digit_not_white)
      with Cons d digit_not_sign [OF d] run show ?thesis
        unfolding parse_decimal_def Let_def e
        by (simp add: digits_value_decimal)
    next
      case Nil
      show ?thesis
      proof (cases rest)
        case Nil
        have dw: "dropWhile is_white s = []"
          unfolding skip e using \<open>ds = []\<close> Nil by simp
        show ?thesis
          unfolding parse_decimal_def Let_def dw using \<open>ds = []\<close> by simp
      next
        case (Cons c cs)
        with bare e \<open>ds = []\<close> rest have c: "\<not> is_white c" "c \<noteq> CHR ''+''" "c \<noteq> CHR ''-''"
          "\<not> is_digit c" by simp_all
        have "dropWhile is_white s = c # cs"
          unfolding skip e using \<open>ds = []\<close> Cons c by simp
        with c \<open>ds = []\<close> show ?thesis by (simp add: parse_decimal_def Let_def)
      qed
    qed
  next
    assume e: "sg = ''+''"
    have "dropWhile is_white s = CHR ''+'' # ds @ rest"
      unfolding skip e by (simp add: is_white_def)
    with run e show ?thesis
      by (simp add: parse_decimal_def Let_def digits_value_decimal)
  next
    assume e: "sg = ''-''"
    have "dropWhile is_white s = CHR ''-'' # ds @ rest"
      unfolding skip e by (simp add: is_white_def)
    with run e show ?thesis
      by (simp add: parse_decimal_def Let_def digits_value_decimal)
  qed
qed

lemma numeric_splits:
  assumes "numeric s"
  shows "\<exists>sg ds. splits_as s [] sg ds [] \<and> ds \<noteq> [] \<and>
    integer_value s = (if sg = ''-'' then - decimal_value ds else decimal_value ds)"
proof (cases s)
  case Nil
  with assms show ?thesis by (simp add: numeric_def)
next
  case (Cons c cs)
  show ?thesis
  proof (cases "c = CHR ''-'' \<or> c = CHR ''+''")
    case True
    with assms Cons have "cs \<noteq> []" "list_all is_digit cs"
      by (simp_all add: numeric_def all_digits_def)
    with True Cons have "splits_as s [] [c] cs [] \<and> cs \<noteq> [] \<and>
      integer_value s = (if [c] = ''-'' then - decimal_value cs else decimal_value cs)"
      by (auto simp: splits_as_def integer_value_def)
    then show ?thesis by blast
  next
    case False
    with assms Cons have "list_all is_digit s" by (simp add: numeric_def all_digits_def)
    with False Cons have "splits_as s [] [] s [] \<and> s \<noteq> [] \<and>
      integer_value s = (if ([]::string) = ''-'' then - decimal_value s else decimal_value s)"
      by (auto simp: splits_as_def integer_value_def)
    then show ?thesis by blast
  qed
qed

lemma parse_decimal_numeric:
  assumes "numeric s"
  shows "parse_decimal s = number_value (integer_value s)"
proof -
  from numeric_splits [OF assms] obtain sg ds where
    "splits_as s [] sg ds []" "ds \<noteq> []"
    "integer_value s = (if sg = ''-'' then - decimal_value ds else decimal_value ds)"
    by blast
  then show ?thesis by (simp add: parse_decimal_split)
qed

lemma parse_decimal_no_digit:
  assumes "s \<noteq> []" "\<not> is_digit (hd s)" "\<not> is_white (hd s)" "hd s \<noteq> CHR ''+''" "hd s \<noteq> CHR ''-''"
  shows "parse_decimal s = NaN"
proof -
  from assms have "splits_as s [] [] [] s" by (simp add: splits_as_def)
  then show ?thesis by (simp add: parse_decimal_split)
qed

lemma parse_decimal_zero: "parse_decimal ''0'' = Fin 0"
  by (simp add: parse_decimal_def is_white_def is_digit_def digits_value_def digit_value_def
      number_value_exact)

lemma counter_of_string: "s \<noteq> [] \<Longrightarrow> counter (JStr s) = Inr (parse_decimal s)"
  by (simp add: counter_def js_or_def parseInt_def and_then_Inr)

lemma counter_is_normalized:
  assumes "counter raw = Inr n"
  shows "counter_normalized raw (JNum n)"
proof -
  have missing: "raw = JUndefined \<or> raw = JNull \<or> raw = JStr [] \<Longrightarrow> n = Fin 0"
    using assms by (auto simp: counter_def js_or_def parseInt_def and_then_def parse_decimal_zero)
  have digits: "n = Fin (integer_value s)"
    if "raw = JStr s" "numeric s" "\<bar>integer_value s\<bar> \<le> 2 ^ 53" for s
  proof -
    from that have "s \<noteq> []" by (auto simp: numeric_def)
    with that assms show ?thesis
      by (simp add: counter_of_string parse_decimal_numeric number_value_exact)
  qed
  have nan: "n = NaN" if "raw = JStr s" "s \<noteq> []" "\<not> is_digit (hd s)" "\<not> is_white (hd s)"
    "hd s \<noteq> CHR ''+''" "hd s \<noteq> CHR ''-''" for s
    using that assms by (simp add: counter_of_string parse_decimal_no_digit)
  have split: "(ds = [] \<longrightarrow> n = NaN) \<and>
      (ds \<noteq> [] \<and> decimal_value ds \<le> 2 ^ 53 \<longrightarrow>
         n = Fin (if sg = ''-'' then - decimal_value ds else decimal_value ds))"
    if "raw = JStr s" "s \<noteq> []" "splits_as s ws sg ds rest" for s ws sg ds rest
  proof -
    from that assms have n: "n = parse_decimal s" by (simp add: counter_of_string)
    from that(3) have "0 \<le> decimal_value ds"
      by (simp add: splits_as_def decimal_value_nonneg)
    then have "decimal_value ds \<le> 2 ^ 53 \<Longrightarrow>
        \<bar>if sg = ''-'' then - decimal_value ds else decimal_value ds\<bar> \<le> 2 ^ 53"
      by simp
    then show ?thesis
      unfolding n parse_decimal_split [OF that(3)] by (simp add: number_value_exact)
  qed
  show ?thesis
    unfolding counter_normalized_def using missing digits nan split by blast
qed

text \<open>The clauses of \<open>counter_normalized\<close>, one at a time.\<close>

lemma counter_missing:
  "counter_normalized raw out \<Longrightarrow> raw = JUndefined \<or> raw = JNull \<or> raw = JStr [] \<Longrightarrow>
   out = JNum (Fin 0)"
  unfolding counter_normalized_def by blast

lemma counter_numeric:
  "counter_normalized (JStr s) out \<Longrightarrow> numeric s \<Longrightarrow> \<bar>integer_value s\<bar> \<le> 2 ^ 53 \<Longrightarrow>
   out = JNum (Fin (integer_value s))"
  unfolding counter_normalized_def by blast

lemma counter_not_a_number:
  "counter_normalized (JStr s) out \<Longrightarrow> s \<noteq> [] \<Longrightarrow>
   \<not> is_digit (hd s) \<Longrightarrow> \<not> is_white (hd s) \<Longrightarrow> hd s \<noteq> CHR ''+'' \<Longrightarrow> hd s \<noteq> CHR ''-'' \<Longrightarrow>
   out = JNum NaN"
  unfolding counter_normalized_def by blast

lemma counter_split:
  "counter_normalized (JStr s) out \<Longrightarrow> s \<noteq> [] \<Longrightarrow> splits_as s ws sg ds rest \<Longrightarrow>
   ds \<noteq> [] \<Longrightarrow> decimal_value ds \<le> 2 ^ 53 \<Longrightarrow>
   out = JNum (Fin (if sg = ''-'' then - decimal_value ds else decimal_value ds))"
  unfolding counter_normalized_def by blast

subsection \<open>The two failure branches of the response, and the handler around them\<close>

lemma on_response_shape:
  assumes "\<not> to_boolean apiData \<or> \<not> to_boolean (field apiData ''data'')"
  shows "on_response q apiData =
    Inr \<lparr>status = 502, body = error_body (JStr ''Unexpected response from RadioFM API'')\<rparr>"
proof (cases "to_boolean apiData")
  case False
  then show ?thesis by (simp add: on_response_def)
next
  case True
  with assms have "\<not> to_boolean (field apiData ''data'')" by simp
  moreover from True have "get apiData ''data'' = Inr (field apiData ''data'')"
    by (simp add: get_field truthy_not_nullish)
  ultimately show ?thesis using True by (simp add: on_response_def and_then_Inr)
qed

lemma on_response_app_error:
  assumes "to_boolean (field apiData ''data'')"
    and "field (field apiData ''data'') ''ErrorCode'' \<noteq> JNum (Fin 0)"
  shows "on_response q apiData =
    Inr \<lparr>status = 502,
         body = error_body (js_or (field (field apiData ''data'') ''ErrorMessage'')
                  (JStr ''RadioFM API error''))\<rparr>"
proof -
  from assms(1) have t: "to_boolean apiData" by (rule field_truthy)
  then have g1: "get apiData ''data'' = Inr (field apiData ''data'')"
    by (simp add: get_field truthy_not_nullish)
  have g2: "get (field apiData ''data'') k = Inr (field (field apiData ''data'') k)" for k
    using assms(1) by (simp add: get_field truthy_not_nullish)
  show ?thesis
    using assms t by (simp add: on_response_def g1 g2 and_then_Inr strict_eq_zero)
qed

lemma search_sends:
  assumes "query_of param \<noteq> []"
    and "upstream (query_of param) = Inr apiData"
    and "on_response (query_of param) apiData = Inr r"
  shows "search upstream param = \<lparr>reply = r, calls = [query_of param], logged = []\<rparr>"
  using assms by (simp add: search_def Let_def and_then_Inr)

lemma search_catches:
  assumes "query_of param \<noteq> []"
    and "and_then (upstream (query_of param)) (on_response (query_of param)) = Inl err"
  shows "search upstream param =
    \<lparr>reply = \<lparr>status = 500,
               body = error_body (JStr ''Internal server error while searching RadioFM'')\<rparr>,
     calls = [query_of param], logged = [err]\<rparr>"
  using assms by (simp add: search_def Let_def)

subsection \<open>What a mapper returns\<close>

lemma and_then_eq_Inr: "and_then r f = Inr y \<longleftrightarrow> (\<exists>x. r = Inr x \<and> f x = Inr y)"
  by (cases r) (simp_all add: and_then_def)

lemma mapRadioStation_Inr:
  assumes "mapRadioStation st = Inr r"
  shows "\<exists>pc fc short.
      counter (field st ''st_play_cnt'') = Inr pc \<and>
      counter (field st ''st_fav_cnt'') = Inr fc \<and>
      to_string (field st ''st_shorturl'') = Inr short \<and>
      field r ''frequency'' =
        (if field st ''st_bc_freq'' = JStr ''~'' then JNull else field st ''st_bc_freq'') \<and>
      field r ''playCount'' = JNum pc \<and>
      field r ''favoriteCount'' = JNum fc \<and>
      field r ''listenUrl'' = JStr (LISTEN_BASE @ short)"
proof -
  from assms obtain i pc fc short where
    pc: "counter (field st ''st_play_cnt'') = Inr pc" and
    fc: "counter (field st ''st_fav_cnt'') = Inr fc" and
    sh: "to_string (field st ''st_shorturl'') = Inr short" and
    r: "r = JObj
         [(''id'', i),
          (''name'', field st ''st_name''),
          (''logo'', field st ''st_logo''),
          (''website'', field st ''st_weburl''),
          (''shortUrl'', field st ''st_shorturl''),
          (''genre'', field st ''st_genre''),
          (''languageCode'', field st ''st_lang''),
          (''language'', field st ''language''),
          (''frequency'',
             if strict_eq (field st ''st_bc_freq'') (JStr ''~'') then JNull
             else field st ''st_bc_freq''),
          (''city'', field st ''st_city''),
          (''state'', field st ''st_state''),
          (''countryName'', field st ''country_name_rs''),
          (''countryCode'', field st ''st_country''),
          (''playCount'', JNum pc),
          (''favoriteCount'', JNum fc),
          (''streamUrl'', field st ''stream_link''),
          (''streamType'', field st ''stream_type''),
          (''streamBitrate'', field st ''stream_bitrate''),
          (''deeplink'', field st ''deeplink''),
          (''listenUrl'', JStr (LISTEN_BASE @ short))]"
    unfolding mapRadioStation_def and_then_eq_Inr by blast
  have "field r ''frequency'' =
        (if field st ''st_bc_freq'' = JStr ''~'' then JNull else field st ''st_bc_freq'')"
    unfolding r by (simp add: field_def strict_eq_str)
  moreover have "field r ''playCount'' = JNum pc"
    unfolding r by (simp add: field_def)
  moreover have "field r ''favoriteCount'' = JNum fc"
    unfolding r by (simp add: field_def)
  moreover have "field r ''listenUrl'' = JStr (LISTEN_BASE @ short)"
    unfolding r by (simp add: field_def)
  ultimately show ?thesis using pc fc sh by blast
qed

lemma mapPodcast_Inr:
  assumes "mapPodcast pc = Inr p"
  shows "\<exists>ts. counter (field pc ''total_stream'') = Inr ts \<and> field p ''totalStream'' = JNum ts"
proof -
  from assms obtain i ts where
    ts: "counter (field pc ''total_stream'') = Inr ts" and
    p: "p = JObj
         [(''id'', i),
          (''name'', field pc ''p_name''),
          (''description'', field pc ''p_desc''),
          (''language'', field pc ''p_lang''),
          (''image'', field pc ''p_image''),
          (''email'', field pc ''p_email''),
          (''category'', field pc ''cat_name''),
          (''totalStream'', JNum ts),
          (''deeplink'', field pc ''deeplink''),
          (''countryCode'', field pc ''cc_code'')]"
    unfolding mapPodcast_def and_then_eq_Inr by blast
  have "field p ''totalStream'' = JNum ts"
    unfolding p by (simp add: field_def)
  with ts show ?thesis by blast
qed

text \<open>
  When the mappers return. A mapper throws on an item that is \<^verbatim>\<open>null\<close> or
  \<^verbatim>\<open>undefined\<close>, and on a counter or short url that has no string conversion;
  on every other item it returns the normalized object.
\<close>

lemma counter_returns:
  assumes "to_string raw = Inr s"
  shows "\<exists>n. counter raw = Inr n"
  using assms by (simp add: counter_def js_or_def parseInt_def and_then_Inr)

lemma mapRadioStation_returns:
  assumes "\<not> nullish station"
    and "to_string (field station ''st_play_cnt'') = Inr a"
    and "to_string (field station ''st_fav_cnt'') = Inr b"
    and "to_string (field station ''st_shorturl'') = Inr c"
  shows "\<exists>r. mapRadioStation station = Inr r"
proof -
  from assms(2,3) obtain pc fc where
    "counter (field station ''st_play_cnt'') = Inr pc"
    "counter (field station ''st_fav_cnt'') = Inr fc"
    using counter_returns by blast
  with assms(1,4) show ?thesis
    by (simp add: mapRadioStation_def get_field and_then_Inr)
qed

lemma mapPodcast_returns:
  assumes "\<not> nullish podcast"
    and "to_string (field podcast ''total_stream'') = Inr a"
  shows "\<exists>p. mapPodcast podcast = Inr p"
proof -
  from assms(2) obtain ts where "counter (field podcast ''total_stream'') = Inr ts"
    using counter_returns by blast
  with assms(1) show ?thesis
    by (simp add: mapPodcast_def get_field and_then_Inr)
qed

lemma mapRadioStation_null: "mapRadioStation JNull = Inl TypeError"
  by (simp add: mapRadioStation_def and_then_Inl)

subsection \<open>The example data, evaluated\<close>

lemma query_jazz: "query_of (Some ''jazz'') = ''jazz''"
  by (simp add: query_of_def trim_def is_white_def)

lemma jazz_item_maps: "mapRadioStation jazz_item = Inr jazz_station"
  by (simp add: mapRadioStation_def jazz_item_def jazz_station_def and_then_def field_def
      counter_def parseInt_def parse_decimal_def js_or_def is_white_def is_digit_def
      digits_value_def digit_value_def number_value_exact LISTEN_BASE_def)

lemma talk_item_maps: "mapPodcast talk_item = Inr talk_podcast"
  by (simp add: mapPodcast_def talk_item_def talk_podcast_def and_then_def field_def
      counter_def parseInt_def parse_decimal_def js_or_def is_white_def is_digit_def
      digits_value_def digit_value_def number_value_exact)

lemma jazz_search:
  "search (answers jazz_body) (Some '' jazz '') =
     \<lparr>reply = \<lparr>status = 200,
                body = JObj [(''query'', JStr ''jazz''), (''totalStations'', JNum (Fin 1)),
                             (''totalPodcasts'', JNum (Fin 0)),
                             (''stations'', JArr [jazz_station]), (''podcasts'', JArr [])]\<rparr>,
      calls = [''jazz''], logged = []\<rparr>"
  by (simp add: search_def Let_def query_of_def trim_def is_white_def answers_def on_response_def
      jazz_body_def and_then_def js_or_def find_bucket_def collect_def jazz_item_maps)


lemma query_jazz_padded: "query_of (Some '' jazz '') = ''jazz''"
  by (simp add: query_of_def trim_def is_white_def)


subsection \<open>Bucket selection: the scan against the first labeled bucket\<close>

lemma labeled_is_object: "labeled l b \<Longrightarrow> \<exists>kvs. b = JObj kvs"
  by (cases b) (simp_all add: labeled_def field_def)

lemma find_bucket_selects:
  assumes "\<forall>b\<in>set bs. \<not> nullish b"
  shows "find_bucket l (JArr bs) =
    Inr (case find (labeled l) bs of None \<Rightarrow> JUndefined | Some b \<Rightarrow> b)"
proof -
  have "find_first (\<lambda>b. and_then (get b ''type'') (\<lambda>t. Inr (strict_eq t (JStr l)))) bs =
    Inr (case find (labeled l) bs of None \<Rightarrow> JUndefined | Some b \<Rightarrow> b)"
    using assms
  proof (induction bs)
    case Nil
    then show ?case by simp
  next
    case (Cons b bs)
    then have "get b ''type'' = Inr (field b ''type'')" by (simp add: get_field)
    with Cons show ?case
      by (simp add: and_then_Inr strict_eq_str labeled_def)
  qed
  then show ?thesis by (simp add: find_bucket_def)
qed

lemma collect_selected:
  "collect mapper (case find (labeled l) bs of None \<Rightarrow> JUndefined | Some b \<Rightarrow> b) =
     map_all mapper (items_of (find (labeled l) bs))"
proof (cases "find (labeled l) bs")
  case None
  then show ?thesis by (simp add: collect_def items_of_def)
next
  case (Some b)
  then have "labeled l b" by (auto simp: find_Some_iff)
  then obtain kvs where b: "b = JObj kvs" using labeled_is_object by blast
  then have g: "get b ''data'' = Inr (field b ''data'')" by (simp add: field_def)
  show ?thesis
    unfolding Some using b g
    by (cases "field b ''data''") (simp_all add: collect_def items_of_def and_then_Inr)
qed

lemma on_response_success:
  assumes "field apiData ''data'' = JObj payload"
    and "map_of payload ''ErrorCode'' = Some (JNum (Fin 0))"
    and "js_or (field (JObj payload) ''Data'') (JArr []) = JArr buckets"
    and "\<forall>b\<in>set buckets. \<not> nullish b"
    and "map_all mapRadioStation (items_of (find (labeled ''radio'') buckets)) = Inr stations"
    and "map_all mapPodcast (items_of (find (labeled ''podcast'') buckets)) = Inr podcasts"
  shows "on_response q apiData =
    Inr \<lparr>status = 200,
         body = JObj
           [(''query'', JStr q),
            (''totalStations'', JNum (Fin (int (length stations)))),
            (''totalPodcasts'', JNum (Fin (int (length podcasts)))),
            (''stations'', JArr stations),
            (''podcasts'', JArr podcasts)]\<rparr>"
proof -
  have p: "to_boolean (field apiData ''data'')" using assms(1) by simp
  then have t: "to_boolean apiData" by (rule field_truthy)
  then have g1: "get apiData ''data'' = Inr (JObj payload)"
    using assms(1) by (simp add: get_field truthy_not_nullish)
  have g2: "get (JObj payload) ''ErrorCode'' = Inr (JNum (Fin 0))"
    using assms(2) by simp
  have g3: "get (JObj payload) ''Data'' = Inr (field (JObj payload) ''Data'')"
    by (simp add: field_def)
  have r: "find_bucket ''radio'' (JArr buckets) =
      Inr (case find (labeled ''radio'') buckets of None \<Rightarrow> JUndefined | Some b \<Rightarrow> b)"
    and c: "find_bucket ''podcast'' (JArr buckets) =
      Inr (case find (labeled ''podcast'') buckets of None \<Rightarrow> JUndefined | Some b \<Rightarrow> b)"
    using assms(4) by (rule find_bucket_selects)+
  show ?thesis
    unfolding on_response_def Let_def g1 and_then_Inr g2 g3 assms(3) r c collect_selected
      assms(5) assms(6)
    using t by simp
qed

subsection \<open>What a successful response was built from\<close>

lemma get_Inr_field: "get v k = Inr x \<Longrightarrow> field v k = x"
  by (simp add: field_def)

lemma find_first_Inr:
  assumes "find_first (\<lambda>b. and_then (get b ''type'') (\<lambda>t. Inr (strict_eq t (JStr l)))) bs = Inr v"
  shows "v = (case find (labeled l) bs of None \<Rightarrow> JUndefined | Some b \<Rightarrow> b)"
  using assms
proof (induction bs)
  case Nil
  then show ?case by simp
next
  case (Cons b bs)
  show ?case
  proof (cases "nullish b")
    case True
    then have "get b ''type'' = Inl TypeError" by (auto simp: nullish_def)
    with Cons.prems show ?thesis by (simp add: and_then_Inl)
  next
    case False
    then have "get b ''type'' = Inr (field b ''type'')" by (simp add: get_field)
    with Cons show ?thesis
      by (simp add: and_then_Inr strict_eq_str labeled_def split: if_splits)
  qed
qed

lemma find_bucket_Inr:
  assumes "find_bucket l v = Inr x"
  shows "\<exists>bs. v = JArr bs \<and> x = (case find (labeled l) bs of None \<Rightarrow> JUndefined | Some b \<Rightarrow> b)"
  using assms by (cases v) (auto simp: find_bucket_def dest: find_first_Inr)

lemma on_response_200:
  assumes "on_response q apiData = Inr r" and "status r = 200"
  shows "\<exists>buckets stations podcasts.
      js_or (field (field apiData ''data'') ''Data'') (JArr []) = JArr buckets \<and>
      map_all mapRadioStation (items_of (find (labeled ''radio'') buckets)) = Inr stations \<and>
      map_all mapPodcast (items_of (find (labeled ''podcast'') buckets)) = Inr podcasts \<and>
      body r = JObj
           [(''query'', JStr q),
            (''totalStations'', JNum (Fin (int (length stations)))),
            (''totalPodcasts'', JNum (Fin (int (length podcasts)))),
            (''stations'', JArr stations),
            (''podcasts'', JArr podcasts)]"
proof -
  have "status r = 502 \<or> (\<exists>payload raw rb pb stations podcasts.
      get apiData ''data'' = Inr payload \<and> get payload ''Data'' = Inr raw \<and>
      find_bucket ''radio'' (js_or raw (JArr [])) = Inr rb \<and>
      find_bucket ''podcast'' (js_or raw (JArr [])) = Inr pb \<and>
      collect mapRadioStation rb = Inr stations \<and>
      collect mapPodcast pb = Inr podcasts \<and>
      body r = JObj
           [(''query'', JStr q),
            (''totalStations'', JNum (Fin (int (length stations)))),
            (''totalPodcasts'', JNum (Fin (int (length podcasts)))),
            (''stations'', JArr stations),
            (''podcasts'', JArr podcasts)])"
    using assms(1) unfolding on_response_def Let_def
    by (auto simp: and_then_eq_Inr split: if_splits)
  with assms(2) obtain payload raw rb pb stations podcasts where
    g: "get apiData ''data'' = Inr payload" "get payload ''Data'' = Inr raw" and
    f: "find_bucket ''radio'' (js_or raw (JArr [])) = Inr rb"
       "find_bucket ''podcast'' (js_or raw (JArr [])) = Inr pb" and
    c: "collect mapRadioStation rb = Inr stations" "collect mapPodcast pb = Inr podcasts" and
    b: "body r = JObj
           [(''query'', JStr q),
            (''totalStations'', JNum (Fin (int (length stations)))),
            (''totalPodcasts'', JNum (Fin (int (length podcasts)))),
            (''stations'', JArr stations),
            (''podcasts'', JArr podcasts)]"
    by auto
  from g have raw: "field (field apiData ''data'') ''Data'' = raw"
    by (simp add: get_Inr_field)
  from f(1) obtain bs where bs: "js_or raw (JArr []) = JArr bs"
    and rb: "rb = (case find (labeled ''radio'') bs of None \<Rightarrow> JUndefined | Some b \<Rightarrow> b)"
    using find_bucket_Inr by blast
  from f(2) bs have pb: "pb = (case find (labeled ''podcast'') bs of None \<Rightarrow> JUndefined | Some b \<Rightarrow> b)"
    using find_bucket_Inr by fastforce
  from c have "map_all mapRadioStation (items_of (find (labeled ''radio'') bs)) = Inr stations"
    "map_all mapPodcast (items_of (find (labeled ''podcast'') bs)) = Inr podcasts"
    unfolding rb pb collect_selected by simp_all
  with raw bs b show ?thesis by blast
qed


section \<open>The claims on the mappers\<close>

subsection \<open>C1: the numeric counters\<close>

text \<open>
  Claim C1, as amended. For every raw station and every raw podcast that the mapper
  normalizes, each counter (\<^verbatim>\<open>playCount\<close> and \<^verbatim>\<open>favoriteCount\<close> of a station,
  \<^verbatim>\<open>totalStream\<close> of a podcast) is a Number, never a string. It is the base-10
  integer value of the raw value when that is a numeric string (decimal digits, with
  or without a sign before them) of a value up to \<open>2 ^ 53\<close> in magnitude, the range
  in which a Number holds every integer exactly; beyond it the counter is the nearest
  Number, which the theorem leaves open. It is \<open>0\<close> when the raw value is missing
  (\<^verbatim>\<open>undefined\<close>, \<^verbatim>\<open>null\<close>) or the empty string. For a non-empty string that
  starts with no digit, sign or white space it is \<open>NaN\<close>, not \<open>0\<close>:
  \<^verbatim>\<open>parseInt(x || "0", 10)\<close> replaces a falsy raw value only. In general a non-empty
  string counts by the run of digits that follows its leading white space and sign:
  the run's value with the sign, or \<open>NaN\<close> when the run is empty.
\<close>

theorem counters_are_parsed_or_zero_or_nan:
  "(mapRadioStation station = Inr r \<longrightarrow>
      counter_normalized (field station ''st_play_cnt'') (field r ''playCount'') \<and>
      counter_normalized (field station ''st_fav_cnt'') (field r ''favoriteCount'')) \<and>
   (mapPodcast podcast = Inr p \<longrightarrow>
      counter_normalized (field podcast ''total_stream'') (field p ''totalStream''))"
proof (intro conjI impI)
  assume "mapRadioStation station = Inr r"
  from mapRadioStation_Inr [OF this] obtain pc fc where
    "counter (field station ''st_play_cnt'') = Inr pc" "field r ''playCount'' = JNum pc"
    "counter (field station ''st_fav_cnt'') = Inr fc" "field r ''favoriteCount'' = JNum fc"
    by blast
  then show "counter_normalized (field station ''st_play_cnt'') (field r ''playCount'')"
    and "counter_normalized (field station ''st_fav_cnt'') (field r ''favoriteCount'')"
    by (simp_all add: counter_is_normalized)
next
  assume "mapPodcast podcast = Inr p"
  from mapPodcast_Inr [OF this] obtain ts where
    "counter (field podcast ''total_stream'') = Inr ts" "field p ''totalStream'' = JNum ts"
    by blast
  then show "counter_normalized (field podcast ''total_stream'') (field p ''totalStream'')"
    by (simp add: counter_is_normalized)
qed

theorem counters_are_parsed_or_zero_or_nan_witness:
  "mapRadioStation jazz_item = Inr jazz_station \<and> mapPodcast talk_item = Inr talk_podcast \<and>
   field jazz_item ''st_play_cnt'' = JStr ''42'' \<and>
   field jazz_station ''playCount'' = JNum (Fin 42) \<and>
   field jazz_item ''st_fav_cnt'' = JUndefined \<and>
   field jazz_station ''favoriteCount'' = JNum (Fin 0) \<and>
   field talk_item ''total_stream'' = JStr ''n/a'' \<and>
   field talk_podcast ''totalStream'' = JNum NaN \<and>
   field padded_item ''st_play_cnt'' = JStr '' 12abc'' \<and>
   (\<exists>r. mapRadioStation padded_item = Inr r \<and> field r ''playCount'' = JNum (Fin 12))"
proof -
  have raw: "field jazz_item ''st_play_cnt'' = JStr ''42''"
    "field jazz_item ''st_fav_cnt'' = JUndefined"
    "field talk_item ''total_stream'' = JStr ''n/a''"
    "field padded_item ''st_play_cnt'' = JStr '' 12abc''"
    by (simp_all add: jazz_item_def talk_item_def padded_item_def field_def)
  have num: "numeric ''42''" by (simp add: numeric_def all_digits_def is_digit_def)
  have val: "integer_value ''42'' = 42"
    by (simp add: integer_value_def decimal_value_def digit_value_def)
  have non: "\<not> is_digit (hd ''n/a'')" "\<not> is_white (hd ''n/a'')"
    by (simp_all add: is_digit_def is_white_def)
  from counters_are_parsed_or_zero_or_nan [of jazz_item jazz_station talk_item talk_podcast]
  have "counter_normalized (JStr ''42'') (field jazz_station ''playCount'')"
    "counter_normalized JUndefined (field jazz_station ''favoriteCount'')"
    "counter_normalized (JStr ''n/a'') (field talk_podcast ''totalStream'')"
    by (simp_all add: jazz_item_maps talk_item_maps raw)
  then have known: "field jazz_station ''playCount'' = JNum (Fin 42)"
    "field jazz_station ''favoriteCount'' = JNum (Fin 0)"
    "field talk_podcast ''totalStream'' = JNum NaN"
    using counter_numeric [OF _ num] counter_missing counter_not_a_number [OF _ _ non]
    by (simp_all add: val)
  have "\<not> nullish padded_item"
    "to_string (field padded_item ''st_play_cnt'') = Inr '' 12abc''"
    "to_string (field padded_item ''st_fav_cnt'') = Inr ''undefined''"
    "to_string (field padded_item ''st_shorturl'') = Inr ''undefined''"
    by (simp_all add: padded_item_def field_def nullish_def)
  then obtain r where r: "mapRadioStation padded_item = Inr r"
    using mapRadioStation_returns by blast
  have sp: "splits_as '' 12abc'' '' '' [] ''12'' ''abc''"
    by (simp add: splits_as_def is_white_def is_digit_def)
  have twelve: "decimal_value ''12'' = 12"
    by (simp add: decimal_value_def digit_value_def)
  from counters_are_parsed_or_zero_or_nan [of padded_item r talk_item talk_podcast] r
  have "counter_normalized (JStr '' 12abc'') (field r ''playCount'')"
    by (simp add: raw)
  from counter_split [OF this _ sp]
  have "field r ''playCount'' =
      JNum (Fin (if ([]::string) = ''-'' then - decimal_value ''12'' else decimal_value ''12''))"
    by (simp add: twelve)
  then have "field r ''playCount'' = JNum (Fin 12)" by (simp add: twelve)
  with r have "\<exists>r. mapRadioStation padded_item = Inr r \<and> field r ''playCount'' = JNum (Fin 12)"
    by blast
  with known raw show ?thesis by (simp add: jazz_item_maps talk_item_maps)
qed

text \<open>
  The claim as written fails on a non-numeric string: the raw stream counter
  \<^verbatim>\<open>"n/a"\<close> is normalized to \<open>NaN\<close>, which is not \<open>0\<close> (and which
  \<^verbatim>\<open>res.json\<close> then writes as \<^verbatim>\<open>null\<close>).
\<close>

theorem non_numeric_counter_is_nan:
  "mapPodcast (JObj [(''p_id'', JNum (Fin 3)), (''total_stream'', JStr ''n/a'')]) =
     Inr (JObj
       [(''id'', JNum (Fin 3)), (''name'', JUndefined), (''description'', JUndefined),
        (''language'', JUndefined), (''image'', JUndefined), (''email'', JUndefined),
        (''category'', JUndefined), (''totalStream'', JNum NaN), (''deeplink'', JUndefined),
        (''countryCode'', JUndefined)]) \<and>
   JNum NaN \<noteq> JNum (Fin 0)"
  using talk_item_maps by (simp add: talk_item_def talk_podcast_def)


subsection \<open>C6: the frequency sentinel\<close>



subsection \<open>C7: the listen URL\<close>




section \<open>The claims on a successful search\<close>

subsection \<open>C3: the buckets are selected by label, each kind on its own\<close>

text \<open>
  Claim C3, as amended. Take a body with error code \<open>0\<close> whose bucket list (the empty
  list when \<^verbatim>\<open>Data\<close> is absent) has no \<^verbatim>\<open>null\<close> entry, and let the items of the
  two selected buckets be ones the mappers normalize. Then the handler answers 200; the
  stations are the mapped items of the first bucket labeled \<^verbatim>\<open>radio\<close> and the
  podcasts the mapped items of the first bucket labeled \<^verbatim>\<open>podcast\<close>. A kind with no
  such bucket, or whose selected bucket has no list under \<^verbatim>\<open>data\<close>, gets the empty
  list and the count \<open>0\<close>, and the other kind is still filled from its own bucket.
\<close>

theorem buckets_are_selected_by_label:
  assumes "query_of param \<noteq> []"
    and "upstream (query_of param) = Inr apiData"
    and "field apiData ''data'' = JObj payload"
    and "map_of payload ''ErrorCode'' = Some (JNum (Fin 0))"
    and "js_or (field (JObj payload) ''Data'') (JArr []) = JArr buckets"
    and "\<forall>b\<in>set buckets. \<not> nullish b"
    and "map_all mapRadioStation (items_of (find (labeled ''radio'') buckets)) = Inr stations"
    and "map_all mapPodcast (items_of (find (labeled ''podcast'') buckets)) = Inr podcasts"
  shows "search upstream param =
      \<lparr>reply = \<lparr>status = 200,
                 body = JObj
                   [(''query'', JStr (query_of param)),
                    (''totalStations'', JNum (Fin (int (length stations)))),
                    (''totalPodcasts'', JNum (Fin (int (length podcasts)))),
                    (''stations'', JArr stations),
                    (''podcasts'', JArr podcasts)]\<rparr>,
       calls = [query_of param], logged = []\<rparr> \<and>
    (find (labeled ''radio'') buckets = None \<longrightarrow> stations = [] \<and> length stations = 0) \<and>
    (find (labeled ''podcast'') buckets = None \<longrightarrow> podcasts = [] \<and> length podcasts = 0) \<and>
    (\<forall>b. find (labeled ''radio'') buckets = Some b \<and> (\<forall>xs. field b ''data'' \<noteq> JArr xs)
        \<longrightarrow> stations = []) \<and>
    (\<forall>b. find (labeled ''podcast'') buckets = Some b \<and> (\<forall>xs. field b ''data'' \<noteq> JArr xs)
        \<longrightarrow> podcasts = [])"
proof -
  have "on_response (query_of param) apiData =
    Inr \<lparr>status = 200,
         body = JObj
           [(''query'', JStr (query_of param)),
            (''totalStations'', JNum (Fin (int (length stations)))),
            (''totalPodcasts'', JNum (Fin (int (length podcasts)))),
            (''stations'', JArr stations),
            (''podcasts'', JArr podcasts)]\<rparr>"
    using assms(3-8) by (rule on_response_success)
  with assms(1,2) have main: "search upstream param =
      \<lparr>reply = \<lparr>status = 200,
                 body = JObj
                   [(''query'', JStr (query_of param)),
                    (''totalStations'', JNum (Fin (int (length stations)))),
                    (''totalPodcasts'', JNum (Fin (int (length podcasts)))),
                    (''stations'', JArr stations),
                    (''podcasts'', JArr podcasts)]\<rparr>,
       calls = [query_of param], logged = []\<rparr>"
    by (simp add: search_sends)
  have none: "items_of None = []" by (simp add: items_of_def)
  have nolist: "items_of (Some b) = []" if "\<forall>xs. field b ''data'' \<noteq> JArr xs" for b
    using that by (cases "field b ''data''") (simp_all add: items_of_def)
  have "find (labeled ''radio'') buckets = None \<longrightarrow> stations = [] \<and> length stations = 0"
    using assms(7) by (auto simp: none)
  moreover have "find (labeled ''podcast'') buckets = None \<longrightarrow> podcasts = [] \<and> length podcasts = 0"
    using assms(8) by (auto simp: none)
  moreover have "\<forall>b. find (labeled ''radio'') buckets = Some b \<and>
      (\<forall>xs. field b ''data'' \<noteq> JArr xs) \<longrightarrow> stations = []"
    using assms(7) nolist by auto
  moreover have "\<forall>b. find (labeled ''podcast'') buckets = Some b \<and>
      (\<forall>xs. field b ''data'' \<noteq> JArr xs) \<longrightarrow> podcasts = []"
    using assms(8) nolist by auto
  ultimately show ?thesis using main by blast
qed

theorem buckets_are_selected_by_label_witness:
  "search (answers jazz_body) (Some '' jazz '') =
     \<lparr>reply = \<lparr>status = 200,
                body = JObj [(''query'', JStr ''jazz''), (''totalStations'', JNum (Fin 1)),
                             (''totalPodcasts'', JNum (Fin 0)),
                             (''stations'', JArr [jazz_station]), (''podcasts'', JArr [])]\<rparr>,
      calls = [''jazz''], logged = []\<rparr>"
proof -
  let ?bucket = "JObj [(''type'', JStr ''radio''), (''data'', JArr [jazz_item])]"
  let ?payload = "[(''ErrorCode'', JNum (Fin 0)), (''Data'', JArr [?bucket])]"
  have h1: "query_of (Some '' jazz '') \<noteq> []" by (simp add: query_jazz_padded)
  have h2: "answers jazz_body (query_of (Some '' jazz '')) = Inr jazz_body"
    by (simp add: answers_def)
  have h3: "field jazz_body ''data'' = JObj ?payload"
    by (simp add: jazz_body_def field_def)
  have h4: "map_of ?payload ''ErrorCode'' = Some (JNum (Fin 0))" by simp
  have h5: "js_or (field (JObj ?payload) ''Data'') (JArr []) = JArr [?bucket]"
    by (simp add: js_or_def field_def)
  have h6: "\<forall>b\<in>set [?bucket]. \<not> nullish b" by (simp add: nullish_def)
  have h7: "map_all mapRadioStation (items_of (find (labeled ''radio'') [?bucket])) =
      Inr [jazz_station]"
    by (simp add: labeled_def items_of_def field_def jazz_item_maps and_then_def)
  have h8: "map_all mapPodcast (items_of (find (labeled ''podcast'') [?bucket])) = Inr []"
    by (simp add: labeled_def items_of_def field_def)
  show ?thesis
    using buckets_are_selected_by_label [of "Some '' jazz ''" "answers jazz_body" jazz_body
        ?payload "[?bucket]" "[jazz_station]" "[]", OF h1 h2 h3 h4 h5 h6 h7 h8]
    by (simp add: query_jazz_padded)
qed

text \<open>
  The claim as written, for every bucket list, fails where the list has a \<^verbatim>\<open>null\<close>
  entry: here the radio bucket is found, the scan for the podcast bucket reads
  \<^verbatim>\<open>b.type\<close> on \<^verbatim>\<open>null\<close> and throws, and the handler answers 500 instead of a result
  with an empty podcast list.
\<close>

theorem null_bucket_is_500:
  "search
     (answers (JObj [(''data'', JObj
        [(''ErrorCode'', JNum (Fin 0)),
         (''Data'', JArr [JObj [(''type'', JStr ''radio''), (''data'', JArr [jazz_item])],
                          JNull])])]))
     (Some ''jazz'') =
   \<lparr>reply = \<lparr>status = 500,
              body = JObj [(''error'', JStr ''Internal server error while searching RadioFM'')]\<rparr>,
    calls = [''jazz''], logged = [TypeError]\<rparr>"
  by (simp add: search_def Let_def query_jazz answers_def on_response_def
      and_then_def js_or_def find_bucket_def error_body_def)


subsection \<open>C8: the assembled result\<close>

text \<open>
  Claim C8. Whenever the handler answers 200, the upstream was called once, with the
  trimmed query, and the body is the object of \<^verbatim>\<open>query\<close> (that trimmed query),
  \<^verbatim>\<open>totalStations\<close> and \<^verbatim>\<open>totalPodcasts\<close> (the lengths of the two normalized
  lists) and \<^verbatim>\<open>stations\<close> and \<^verbatim>\<open>podcasts\<close> (the two lists in full, each the
  mapped items of the selected bucket).
\<close>

theorem success_body_is_assembled:
  assumes "status (reply (search upstream param)) = 200"
  shows "\<exists>apiData buckets stations podcasts.
      upstream (query_of param) = Inr apiData \<and>
      js_or (field (field apiData ''data'') ''Data'') (JArr []) = JArr buckets \<and>
      map_all mapRadioStation (items_of (find (labeled ''radio'') buckets)) = Inr stations \<and>
      map_all mapPodcast (items_of (find (labeled ''podcast'') buckets)) = Inr podcasts \<and>
      search upstream param =
        \<lparr>reply = \<lparr>status = 200,
                   body = JObj
                     [(''query'', JStr (query_of param)),
                      (''totalStations'', JNum (Fin (int (length stations)))),
                      (''totalPodcasts'', JNum (Fin (int (length podcasts)))),
                      (''stations'', JArr stations),
                      (''podcasts'', JArr podcasts)]\<rparr>,
         calls = [query_of param], logged = []\<rparr>"
proof -
  from assms have ne: "query_of param \<noteq> []"
    by (auto simp: search_def Let_def)
  from assms ne obtain r where
    s: "and_then (upstream (query_of param)) (on_response (query_of param)) = Inr r"
    by (cases "and_then (upstream (query_of param)) (on_response (query_of param))")
       (auto simp: search_def Let_def)
  then obtain apiData where up: "upstream (query_of param) = Inr apiData"
    and on: "on_response (query_of param) apiData = Inr r"
    by (auto simp: and_then_eq_Inr)
  from s ne have o: "search upstream param = \<lparr>reply = r, calls = [query_of param], logged = []\<rparr>"
    by (simp add: search_def Let_def)
  with assms have st: "status r = 200" by simp
  from on_response_200 [OF on st] obtain buckets stations podcasts where
    "js_or (field (field apiData ''data'') ''Data'') (JArr []) = JArr buckets"
    "map_all mapRadioStation (items_of (find (labeled ''radio'') buckets)) = Inr stations"
    "map_all mapPodcast (items_of (find (labeled ''podcast'') buckets)) = Inr podcasts"
    "body r = JObj
           [(''query'', JStr (query_of param)),
            (''totalStations'', JNum (Fin (int (length stations)))),
            (''totalPodcasts'', JNum (Fin (int (length podcasts)))),
            (''stations'', JArr stations),
            (''podcasts'', JArr podcasts)]"
    by blast
  moreover from this(4) st have "r = \<lparr>status = 200,
                   body = JObj
                     [(''query'', JStr (query_of param)),
                      (''totalStations'', JNum (Fin (int (length stations)))),
                      (''totalPodcasts'', JNum (Fin (int (length podcasts)))),
                      (''stations'', JArr stations),
                      (''podcasts'', JArr podcasts)]\<rparr>"
    by (cases r) simp
  ultimately show ?thesis using up o by blast
qed

theorem success_body_is_assembled_witness:
  "status (reply (search (answers jazz_body) (Some '' jazz ''))) = 200 \<and>
   (\<exists>stations podcasts.
      search (answers jazz_body) (Some '' jazz '') =
        \<lparr>reply = \<lparr>status = 200,
                   body = JObj
                     [(''query'', JStr ''jazz''),
                      (''totalStations'', JNum (Fin (int (length stations)))),
                      (''totalPodcasts'', JNum (Fin (int (length podcasts)))),
                      (''stations'', JArr stations),
                      (''podcasts'', JArr podcasts)]\<rparr>,
         calls = [''jazz''], logged = []\<rparr>)"
proof -
  have ok: "status (reply (search (answers jazz_body) (Some '' jazz ''))) = 200"
    by (simp add: jazz_search)
  from success_body_is_assembled [OF ok] show ?thesis
    using ok by (auto simp: query_jazz_padded)
qed

section \<open>The claims on the handler's failures\<close>

subsection \<open>C2: a blank query is refused before any upstream call\<close>

text \<open>
  Claim C2. When the \<^verbatim>\<open>query\<close> parameter is absent, empty or made of white space
  only, the handler answers 400 with the fixed message
  \<^verbatim>\<open>Missing required query parameter: query\<close> and makes no upstream call: the list of
  calls is empty, whatever the upstream would have answered.
\<close>

theorem blank_query_is_rejected_without_call:
  assumes "param = None \<or> (\<exists>s. param = Some s \<and> list_all is_white s)"
  shows "search upstream param =
    \<lparr>reply = \<lparr>status = 400,
               body = JObj [(''error'', JStr ''Missing required query parameter: query'')]\<rparr>,
     calls = [], logged = []\<rparr>"
proof -
  from assms have "query_of param = []"
    by (auto simp: query_of_def trim_empty_iff)
  then show ?thesis by (simp add: search_def error_body_def)
qed

theorem blank_query_is_rejected_without_call_witness:
  "search (answers JNull) (Some [CHR 0x20, CHR 0x09, CHR 0x20]) =
    \<lparr>reply = \<lparr>status = 400,
               body = JObj [(''error'', JStr ''Missing required query parameter: query'')]\<rparr>,
     calls = [], logged = []\<rparr>
   \<and> search (answers JNull) None =
    \<lparr>reply = \<lparr>status = 400,
               body = JObj [(''error'', JStr ''Missing required query parameter: query'')]\<rparr>,
     calls = [], logged = []\<rparr>"
proof -
  have "list_all is_white [CHR 0x20, CHR 0x09, CHR 0x20]" by (simp add: is_white_def)
  then show ?thesis
    using blank_query_is_rejected_without_call [of "Some [CHR 0x20, CHR 0x09, CHR 0x20]" "answers JNull"]
      blank_query_is_rejected_without_call [of None "answers JNull"]
    by simp
qed


subsection \<open>C5: a body without the nested payload is a shape error\<close>

text \<open>
  Claim C5, as amended. When the decoded body is absent (\<^verbatim>\<open>!apiData\<close>: \<^verbatim>\<open>null\<close>,
  the empty string of an empty body, ...) or its nested payload is missing or falsy
  (\<^verbatim>\<open>!apiData.data\<close>: no \<^verbatim>\<open>data\<close> property, or \<^verbatim>\<open>null\<close>, \<^verbatim>\<open>false\<close>,
  \<open>0\<close> or the empty string there), the handler answers 502 with
  \<^verbatim>\<open>Unexpected response from RadioFM API\<close>. The whole outcome is fixed by that test:
  nothing else of the body is read, no bucket is searched and no item is mapped. A
  truthy \<^verbatim>\<open>data\<close> that is no payload object passes the test and is not reported
  as a shape error.
\<close>

theorem missing_payload_is_shape_error:
  assumes "query_of param \<noteq> []"
    and "upstream (query_of param) = Inr apiData"
    and "\<not> to_boolean apiData \<or> \<not> to_boolean (field apiData ''data'')"
  shows "search upstream param =
    \<lparr>reply = \<lparr>status = 502,
               body = JObj [(''error'', JStr ''Unexpected response from RadioFM API'')]\<rparr>,
     calls = [query_of param], logged = []\<rparr>"
proof -
  have "on_response (query_of param) apiData =
      Inr \<lparr>status = 502, body = error_body (JStr ''Unexpected response from RadioFM API'')\<rparr>"
    using assms(3) by (rule on_response_shape)
  with assms(1,2) show ?thesis
    by (simp add: search_sends error_body_def)
qed

theorem missing_payload_is_shape_error_witness:
  "search (answers (JStr [])) (Some ''jazz'') =
    \<lparr>reply = \<lparr>status = 502,
               body = JObj [(''error'', JStr ''Unexpected response from RadioFM API'')]\<rparr>,
     calls = [''jazz''], logged = []\<rparr>
   \<and> search (answers (JObj [(''status'', JStr ''ok'')])) (Some ''jazz'') =
    \<lparr>reply = \<lparr>status = 502,
               body = JObj [(''error'', JStr ''Unexpected response from RadioFM API'')]\<rparr>,
     calls = [''jazz''], logged = []\<rparr>"
  using missing_payload_is_shape_error [of "Some ''jazz''" "answers (JStr [])" "JStr []"]
    missing_payload_is_shape_error [of "Some ''jazz''" "answers (JObj [(''status'', JStr ''ok'')])"
      "JObj [(''status'', JStr ''ok'')]"]
  by (simp add: query_jazz answers_def field_def)

text \<open>
  The claim as written fails on a body whose \<^verbatim>\<open>data\<close> is there but is no payload
  object: for the string \<^verbatim>\<open>"oops"\<close> the test \<^verbatim>\<open>!apiData.data\<close> is false, the
  read of \<^verbatim>\<open>ErrorCode\<close> gives \<^verbatim>\<open>undefined\<close>, and the handler answers with the
  message of an application error, not with the unexpected-response message.
\<close>

theorem non_object_payload_is_not_shape_error:
  "search (answers (JObj [(''data'', JStr ''oops'')])) (Some ''jazz'') =
    \<lparr>reply = \<lparr>status = 502, body = JObj [(''error'', JStr ''RadioFM API error'')]\<rparr>,
     calls = [''jazz''], logged = []\<rparr> \<and>
   JStr ''RadioFM API error'' \<noteq> JStr ''Unexpected response from RadioFM API''"
  by (simp add: search_def Let_def query_jazz answers_def on_response_def
      and_then_def js_or_def error_body_def)

subsection \<open>C9: a failed upstream call is a 500, once\<close>

text \<open>
  Claim C9. When \<^verbatim>\<open>axios.get\<close> is rejected (network failure, timeout), the handler
  answers 500 with the fixed message \<^verbatim>\<open>Internal server error while searching RadioFM\<close>,
  which does not depend on the failure; the failure goes to the log only. The upstream
  was called exactly once, with the trimmed query: there is no retry.
\<close>

theorem transport_failure_is_500_without_retry:
  assumes "query_of param \<noteq> []"
    and "upstream (query_of param) = Inl err"
  shows "search upstream param =
    \<lparr>reply = \<lparr>status = 500,
               body = JObj [(''error'', JStr ''Internal server error while searching RadioFM'')]\<rparr>,
     calls = [query_of param], logged = [err]\<rparr>"
  using assms by (simp add: search_catches and_then_Inl error_body_def)

theorem transport_failure_is_500_without_retry_witness:
  "search (rejects ''timeout of 15000ms exceeded'') (Some ''jazz'') =
    \<lparr>reply = \<lparr>status = 500,
               body = JObj [(''error'', JStr ''Internal server error while searching RadioFM'')]\<rparr>,
     calls = [''jazz''], logged = [RequestFailed ''timeout of 15000ms exceeded'']\<rparr>"
  using transport_failure_is_500_without_retry [of "Some ''jazz''"
      "rejects ''timeout of 15000ms exceeded''" "RequestFailed ''timeout of 15000ms exceeded''"]
  by (simp add: query_jazz rejects_def)

subsection \<open>C4: a non-zero error code is a 502 with the upstream's message\<close>

text \<open>
  Claim C4. When the nested payload carries an \<^verbatim>\<open>ErrorCode\<close> other than the number
  \<open>0\<close>, the handler answers 502, and the body's \<^verbatim>\<open>error\<close> is the upstream's
  \<^verbatim>\<open>ErrorMessage\<close> itself when there is one (a truthy value, such as a non-empty
  string), and \<^verbatim>\<open>RadioFM API error\<close> otherwise.
\<close>

theorem nonzero_error_code_is_502_with_message:
  assumes "query_of param \<noteq> []"
    and "upstream (query_of param) = Inr apiData"
    and "field apiData ''data'' = JObj payload"
    and "map_of payload ''ErrorCode'' = Some code"
    and "code \<noteq> JNum (Fin 0)"
    and "field (JObj payload) ''ErrorMessage'' = msg"
  shows "search upstream param =
    \<lparr>reply = \<lparr>status = 502,
               body = JObj [(''error'', if to_boolean msg then msg else JStr ''RadioFM API error'')]\<rparr>,
     calls = [query_of param], logged = []\<rparr>"
proof -
  have "field (field apiData ''data'') ''ErrorCode'' \<noteq> JNum (Fin 0)"
    using assms(3,4,5) by (simp add: field_def)
  moreover have "to_boolean (field apiData ''data'')"
    using assms(3) by simp
  ultimately have "on_response (query_of param) apiData =
      Inr \<lparr>status = 502,
           body = error_body (js_or (field (field apiData ''data'') ''ErrorMessage'')
                    (JStr ''RadioFM API error''))\<rparr>"
    by (rule on_response_app_error [rotated])
  with assms(1,2,3,6) show ?thesis
    by (simp add: search_sends error_body_def js_or_def)
qed

theorem nonzero_error_code_is_502_with_message_witness:
  "search (answers (JObj [(''data'', JObj [(''ErrorCode'', JNum (Fin 1)),
                                           (''ErrorMessage'', JStr ''No results'')])]))
      (Some ''jazz'') =
    \<lparr>reply = \<lparr>status = 502, body = JObj [(''error'', JStr ''No results'')]\<rparr>,
     calls = [''jazz''], logged = []\<rparr>
   \<and> search (answers (JObj [(''data'', JObj [(''ErrorCode'', JNum (Fin 1))])])) (Some ''jazz'') =
    \<lparr>reply = \<lparr>status = 502, body = JObj [(''error'', JStr ''RadioFM API error'')]\<rparr>,
     calls = [''jazz''], logged = []\<rparr>"
  using nonzero_error_code_is_502_with_message [of "Some ''jazz''"
      "answers (JObj [(''data'', JObj [(''ErrorCode'', JNum (Fin 1)),
                                       (''ErrorMessage'', JStr ''No results'')])])"
      "JObj [(''data'', JObj [(''ErrorCode'', JNum (Fin 1)), (''ErrorMessage'', JStr ''No results'')])]"
      "[(''ErrorCode'', JNum (Fin 1)), (''ErrorMessage'', JStr ''No results'')]"
      "JNum (Fin 1)" "JStr ''No results''"]
    nonzero_error_code_is_502_with_message [of "Some ''jazz''"
      "answers (JObj [(''data'', JObj [(''ErrorCode'', JNum (Fin 1))])])"
      "JObj [(''data'', JObj [(''ErrorCode'', JNum (Fin 1))])]"
      "[(''ErrorCode'', JNum (Fin 1))]"
      "JNum (Fin 1)" "JUndefined"]
  by (simp add: query_jazz answers_def field_def)

subsection \<open>C10: an absent error code is an application error too\<close>

text \<open>
  Claim C10. When the body carries the nested payload (\<^verbatim>\<open>apiData.data\<close> is truthy) and
  the payload has no \<^verbatim>\<open>ErrorCode\<close>, the test \<^verbatim>\<open>ErrorCode !== 0\<close> holds, and the
  handler answers with the 502 of an application error: the upstream's message when it
  has one, \<^verbatim>\<open>RadioFM API error\<close> otherwise. It neither succeeds nor reports the
  shape error.
\<close>

theorem absent_error_code_is_502_application_error:
  assumes "query_of param \<noteq> []"
    and "upstream (query_of param) = Inr apiData"
    and "field apiData ''data'' = payload"
    and "to_boolean payload"
    and "field payload ''ErrorCode'' = JUndefined"
    and "field payload ''ErrorMessage'' = msg"
  shows "search upstream param =
    \<lparr>reply = \<lparr>status = 502,
               body = JObj [(''error'', if to_boolean msg then msg else JStr ''RadioFM API error'')]\<rparr>,
     calls = [query_of param], logged = []\<rparr>"
proof -
  have "field (field apiData ''data'') ''ErrorCode'' \<noteq> JNum (Fin 0)"
    using assms(3,5) by simp
  moreover have "to_boolean (field apiData ''data'')"
    using assms(3,4) by simp
  ultimately have "on_response (query_of param) apiData =
      Inr \<lparr>status = 502,
           body = error_body (js_or (field (field apiData ''data'') ''ErrorMessage'')
                    (JStr ''RadioFM API error''))\<rparr>"
    by (rule on_response_app_error [rotated])
  with assms(1,2,3,6) show ?thesis
    by (simp add: search_sends error_body_def js_or_def)
qed

theorem absent_error_code_is_502_application_error_witness:
  "search (answers (JObj [(''data'', JObj [(''Data'', JArr [])])])) (Some ''jazz'') =
    \<lparr>reply = \<lparr>status = 502, body = JObj [(''error'', JStr ''RadioFM API error'')]\<rparr>,
     calls = [''jazz''], logged = []\<rparr>
   \<and> search (answers (JObj [(''data'', JNum (Fin 5))])) (Some ''jazz'') =
    \<lparr>reply = \<lparr>status = 502, body = JObj [(''error'', JStr ''RadioFM API error'')]\<rparr>,
     calls = [''jazz''], logged = []\<rparr>"
  using absent_error_code_is_502_application_error [of "Some ''jazz''"
      "answers (JObj [(''data'', JObj [(''Data'', JArr [])])])"
      "JObj [(''data'', JObj [(''Data'', JArr [])])]"
      "JObj [(''Data'', JArr [])]" "JUndefined"]
    absent_error_code_is_502_application_error [of "Some ''jazz''"
      "answers (JObj [(''data'', JNum (Fin 5))])"
      "JObj [(''data'', JNum (Fin 5))]"
      "JNum (Fin 5)" "JUndefined"]
  by (simp add: query_jazz answers_def field_def)

end
